theory Spec2Isabelle
  imports Main
begin

section \<open>JavaScript values\<close>

text \<open>
  The arguments of an operation method are JavaScript values whose runtime shape the
  client inspects (\<^verbatim>\<open>_.isArray\<close>, \<^verbatim>\<open>typeof\<close>, \<^verbatim>\<open>_.isNil\<close>, truthiness), so they are
  modelled dynamically. Numbers are restricted to the integers that JavaScript prints in
  plain decimal notation (magnitude below \<open>10\<^sup>2\<^sup>1\<close>); an object is the list of its own
  enumerable properties in enumeration order, read through \<open>map_of\<close>, with distinct keys
  in every object that JavaScript can build. An array is the list of its elements
  together with its named own properties, which an array read from JSON does not have
  and which are never an index or \<^verbatim>\<open>length\<close>.
\<close>

datatype jsval =
    JUndefined
  | JNull
  | JBool bool
  | JNum int
  | JStr string
  | JArr "jsval list" "(string \<times> jsval) list"
  | JObj "(string \<times> jsval) list"

datatype error =
    TypeError
  | RangeError
  | Error string

text \<open>JavaScript truthiness: \<^verbatim>\<open>if (v)\<close>, \<^verbatim>\<open>a || b\<close>.\<close>

fun truthy :: "jsval \<Rightarrow> bool" where
  "truthy JUndefined = False"
| "truthy JNull = False"
| "truthy (JBool b) = b"
| "truthy (JNum n) = (n \<noteq> 0)"
| "truthy (JStr s) = (s \<noteq> [])"
| "truthy (JArr xs ps) = True"
| "truthy (JObj kvs) = True"

text \<open>\<^verbatim>\<open>_.isNil(v)\<close>: \<^verbatim>\<open>v == null\<close>.\<close>

fun isNil :: "jsval \<Rightarrow> bool" where
  "isNil JUndefined = True"
| "isNil JNull = True"
| "isNil v = False"

text \<open>A bare scalar: neither null nor undefined, neither an array nor an object.\<close>

fun isScalar :: "jsval \<Rightarrow> bool" where
  "isScalar (JBool b) = True"
| "isScalar (JNum n) = True"
| "isScalar (JStr s) = True"
| "isScalar v = False"

fun dec_digits :: "nat \<Rightarrow> string" where
  "dec_digits n =
     (if n < 10 then [''0123456789'' ! n]
      else dec_digits (n div 10) @ [''0123456789'' ! (n mod 10)])"

declare dec_digits.simps [simp del]

fun intercalate :: "string \<Rightarrow> string list \<Rightarrow> string" where
  "intercalate sep [] = []"
| "intercalate sep [x] = x"
| "intercalate sep (x # y # ys) = x @ sep @ intercalate sep (y # ys)"

text \<open>
  String coercion, as a template literal \<^verbatim>\<open>`${v}`\<close> performs it: an array joins its
  elements with commas (null and undefined elements as the empty string), a plain object
  becomes \<^verbatim>\<open>[object Object]\<close>.
\<close>

fun js_toString :: "jsval \<Rightarrow> string" where
  "js_toString JUndefined = ''undefined''"
| "js_toString JNull = ''null''"
| "js_toString (JBool b) = (if b then ''true'' else ''false'')"
| "js_toString (JNum n) =
     (if n < 0 then ''-'' @ dec_digits (nat (- n)) else dec_digits (nat n))"
| "js_toString (JStr s) = s"
| "js_toString (JArr xs ps) =
     intercalate '',''
       (map (\<lambda>x. case x of JUndefined \<Rightarrow> [] | JNull \<Rightarrow> [] | _ \<Rightarrow> js_toString x) xs)"
| "js_toString (JObj kvs) = ''[object Object]''"

text \<open>Property read \<^verbatim>\<open>obj[k]\<close> on an object: \<^verbatim>\<open>undefined\<close> when the key is absent.\<close>

definition obj_get :: "(string \<times> jsval) list \<Rightarrow> string \<Rightarrow> jsval" where
  "obj_get kvs k = (case map_of kvs k of None \<Rightarrow> JUndefined | Some v \<Rightarrow> v)"

text \<open>
  Property write \<^verbatim>\<open>obj[k] = v\<close>: an existing key keeps its place, a new key is
  appended.
\<close>

fun assign :: "string \<Rightarrow> jsval \<Rightarrow> (string \<times> jsval) list \<Rightarrow> (string \<times> jsval) list" where
  "assign k v [] = [(k, v)]"
| "assign k v (kv # kvs) = (if fst kv = k then (k, v) # kvs else kv # assign k v kvs)"

section \<open>The API description\<close>

text \<open>
  Modelled from the spec: the enumerations \<^verbatim>\<open>ParamType\<close> and \<^verbatim>\<open>HttpMethod\<close> are declared
  in \<^verbatim>\<open>types/client\<close>, which is not among the sources. The spec gives the parameter
  locations as path, query, header, cookie and the methods as get, put, post, delete,
  options, head, patch, trace; the string values are the lower-case names, as the
  description document spells them.
\<close>

datatype ParamType = Path | Query | Header | Cookie

fun ParamType_str :: "ParamType \<Rightarrow> string" where
  "ParamType_str Path = ''path''"
| "ParamType_str Query = ''query''"
| "ParamType_str Header = ''header''"
| "ParamType_str Cookie = ''cookie''"

datatype HttpMethod = Get | Put | Post | Delete | Options | Head | Patch | Trace

definition HttpMethod_values :: "HttpMethod list" where
  "HttpMethod_values = [Get, Put, Post, Delete, Options, Head, Patch, Trace]"


text \<open>
  A declared parameter (\<^verbatim>\<open>OpenAPIV3.ParameterObject\<close>): its \<^verbatim>\<open>name\<close>, its location
  \<^verbatim>\<open>in\<close> and the optional flag \<^verbatim>\<open>required\<close>.
\<close>

record Parameter =
  param_name :: string
  param_in :: ParamType
  param_required :: "bool option"

record Server =
  server_url :: string
  server_description :: "string option"

text \<open>
  An operation as the description declares it, and as the catalog flattens it
  (\<^verbatim>\<open>{ ...operation, path, method }\<close>).
\<close>

record OperationObject =
  operationId :: "string option"
  parameters :: "Parameter list option"
  servers :: "Server list option"

record Operation = OperationObject +
  op_path :: string
  op_method :: HttpMethod

record PathItemObject =
  item_methods :: "HttpMethod \<Rightarrow> OperationObject option"
  item_parameters :: "Parameter list option"
  item_servers :: "Server list option"

record Document =
  doc_paths :: "(string \<times> PathItemObject) list"
  doc_servers :: "Server list option"

text \<open>The default-server selector: \<^verbatim>\<open>number | string | Server\<close>.\<close>

datatype DefaultServer =
    ServerIndex int
  | ServerDescription string
  | ServerObject Server

text \<open>The fields of the client object that request construction reads.\<close>

record OpenAPIClientAxios =
  definition' :: "Document option"
  defaultServer :: DefaultServer

section \<open>The operation catalog\<close>

text \<open>
  \<^verbatim>\<open>getOperations\<close>: for every path, the methods picked in the order of \<^verbatim>\<open>HttpMethod\<close>'s
  values; path-level parameters and servers are appended to the operation's own.
\<close>

definition orEmpty :: "'a list option \<Rightarrow> 'a list" where
  "orEmpty xs = (case xs of None \<Rightarrow> [] | Some ys \<Rightarrow> ys)"

definition flattenOperation :: "string \<Rightarrow> PathItemObject \<Rightarrow> HttpMethod \<Rightarrow> OperationObject \<Rightarrow> Operation" where
  "flattenOperation p pathObject m operation =
     \<lparr> operationId = operationId operation,
       parameters =
         (case item_parameters pathObject of
            None \<Rightarrow> parameters operation
          | Some ps \<Rightarrow> Some (orEmpty (parameters operation) @ ps)),
       servers =
         (case item_servers pathObject of
            None \<Rightarrow> servers operation
          | Some ss \<Rightarrow> Some (orEmpty (servers operation) @ ss)),
       op_path = p,
       op_method = m \<rparr>"

definition pickMethods :: "PathItemObject \<Rightarrow> (HttpMethod \<times> OperationObject) list" where
  "pickMethods pathObject =
     List.map_filter
       (\<lambda>m. case item_methods pathObject m of None \<Rightarrow> None | Some operation \<Rightarrow> Some (m, operation))
       HttpMethod_values"

definition pathOperations :: "string \<times> PathItemObject \<Rightarrow> Operation list" where
  "pathOperations entry =
     map (\<lambda>(m, operation). flattenOperation (fst entry) (snd entry) m operation)
       (pickMethods (snd entry))"

definition getOperations :: "OpenAPIClientAxios \<Rightarrow> Operation list" where
  "getOperations this =
     (case definition' this of
        None \<Rightarrow> []
      | Some d \<Rightarrow> concat (map pathOperations (doc_paths d)))"

text \<open>\<^verbatim>\<open>getOperation\<close>: the first catalog entry with the given operation identifier.\<close>

definition getOperation :: "OpenAPIClientAxios \<Rightarrow> string \<Rightarrow> Operation option" where
  "getOperation this opId = find (\<lambda>operation. operationId operation = Some opId) (getOperations this)"

section \<open>Binding the arguments\<close>

record RequestParams =
  pathParams :: "(string \<times> jsval) list"
  query :: "(string \<times> jsval) list"
  headers :: "(string \<times> jsval) list"
  cookies :: "(string \<times> jsval) list"

definition noParams :: RequestParams where
  "noParams = \<lparr> pathParams = [], query = [], headers = [], cookies = [] \<rparr>"

text \<open>
  \<^verbatim>\<open>setRequestParam\<close>: a \<^verbatim>\<open>switch\<close> over the four locations with no default branch,
  so any other type string leaves the four maps as they are.
\<close>

definition setRequestParam :: "string \<Rightarrow> jsval \<Rightarrow> string \<Rightarrow> RequestParams \<Rightarrow> RequestParams" where
  "setRequestParam name v type r =
     (if type = ParamType_str Path then r\<lparr> pathParams := assign name v (pathParams r) \<rparr>
      else if type = ParamType_str Query then r\<lparr> query := assign name v (query r) \<rparr>
      else if type = ParamType_str Header then r\<lparr> headers := assign name v (headers r) \<rparr>
      else if type = ParamType_str Cookie then r\<lparr> cookies := assign name v (cookies r) \<rparr>
      else r)"

text \<open>
  \<^verbatim>\<open>getParamType\<close>: \<^verbatim>\<open>_.find(parameters, { name: paramName })\<close> takes the first declared
  parameter whose name equals \<^verbatim>\<open>paramName\<close>; a name that is not a string equals no
  declared name. Undeclared names default to the query.
\<close>

definition getParamType :: "Operation \<Rightarrow> jsval \<Rightarrow> ParamType" where
  "getParamType operation paramName =
     (case find (\<lambda>p. JStr (param_name p) = paramName) (orEmpty (parameters operation)) of
        Some param \<Rightarrow> param_in param
      | None \<Rightarrow> Query)"

definition getFirstOperationParam :: "Operation \<Rightarrow> Parameter option" where
  "getFirstOperationParam operation =
     (case find (\<lambda>p. param_required p = Some True) (orEmpty (parameters operation)) of
        Some firstRequiredParam \<Rightarrow> Some firstRequiredParam
      | None \<Rightarrow>
          (case orEmpty (parameters operation) of
             [] \<Rightarrow> None
           | firstParam # _ \<Rightarrow> Some firstParam))"

text \<open>
  The fields \<^verbatim>\<open>name\<close>, \<^verbatim>\<open>value\<close> and \<^verbatim>\<open>in\<close> of an element of a parameter array:
  reading them from \<^verbatim>\<open>null\<close> or \<^verbatim>\<open>undefined\<close> throws, an array has them when they are
  among its named properties, a primitive has none of them.
\<close>

fun paramField :: "jsval \<Rightarrow> string \<Rightarrow> error + jsval" where
  "paramField JUndefined k = Inl TypeError"
| "paramField JNull k = Inl TypeError"
| "paramField (JObj kvs) k = Inr (obj_get kvs k)"
| "paramField (JArr xs ps) k = Inr (obj_get ps k)"
| "paramField v k = Inr JUndefined"

text \<open>
  One step of the loop over a parameter array:
  \<^verbatim>\<open>setRequestParam(param.name, param.value, param.in || getParamType(param.name))\<close>.
  The name is used as a property key, so it is coerced to a string; a type that is not a
  string matches no case of the \<^verbatim>\<open>switch\<close>.
\<close>

definition bindExplicit :: "Operation \<Rightarrow> jsval \<Rightarrow> RequestParams \<Rightarrow> error + RequestParams" where
  "bindExplicit operation param r =
     (case paramField param ''name'' of
        Inl e \<Rightarrow> Inl e
      | Inr nm \<Rightarrow>
          (case paramField param ''value'' of
             Inl e \<Rightarrow> Inl e
           | Inr v \<Rightarrow>
               (case paramField param ''in'' of
                  Inl e \<Rightarrow> Inl e
                | Inr loc \<Rightarrow>
                    (case (if truthy loc then loc else JStr (ParamType_str (getParamType operation nm))) of
                       JStr type \<Rightarrow> Inr (setRequestParam (js_toString nm) v type r)
                     | _ \<Rightarrow> Inr r))))"

fun bindArray :: "Operation \<Rightarrow> jsval list \<Rightarrow> RequestParams \<Rightarrow> error + RequestParams" where
  "bindArray operation [] r = Inr r"
| "bindArray operation (param # params) r =
     (case bindExplicit operation param r of
        Inl e \<Rightarrow> Inl e
      | Inr r' \<Rightarrow> bindArray operation params r')"

text \<open>
  The loop over a parameter object:
  \<^verbatim>\<open>for (const name in paramsArg) if (paramsArg[name]) setRequestParam(...)\<close>.
\<close>

fun bindObject :: "Operation \<Rightarrow> (string \<times> jsval) list \<Rightarrow> string list \<Rightarrow> RequestParams \<Rightarrow> RequestParams" where
  "bindObject operation paramsArg [] r = r"
| "bindObject operation paramsArg (name # names) r =
     bindObject operation paramsArg names
       (if truthy (obj_get paramsArg name)
        then setRequestParam name (obj_get paramsArg name)
               (ParamType_str (getParamType operation (JStr name))) r
        else r)"

definition noParametersFound :: "Operation \<Rightarrow> error" where
  "noParametersFound operation =
     Error (''No parameters found for operation '' @
            (case operationId operation of None \<Rightarrow> ''undefined'' | Some i \<Rightarrow> i))"

text \<open>
  The dispatch on the shape of the first argument: an array, then anything of type
  \<^verbatim>\<open>object\<close> (which includes \<^verbatim>\<open>null\<close>, over which \<^verbatim>\<open>for ... in\<close> does not iterate),
  then anything that is not nil.
\<close>

fun bindParams :: "Operation \<Rightarrow> jsval \<Rightarrow> error + RequestParams" where
  "bindParams operation (JArr params ps) = bindArray operation params noParams"
| "bindParams operation (JObj kvs) = Inr (bindObject operation kvs (map fst kvs) noParams)"
| "bindParams operation JNull = Inr noParams"
| "bindParams operation JUndefined = Inr noParams"
| "bindParams operation paramsArg =
     (case getFirstOperationParam operation of
        None \<Rightarrow> Inl (noParametersFound operation)
      | Some firstParam \<Rightarrow>
          Inr (setRequestParam (param_name firstParam) paramsArg
                 (ParamType_str (param_in firstParam)) noParams))"

section \<open>Rendering the path\<close>

text \<open>
  Modelled from the spec: the path templater is the library \<^verbatim>\<open>bath\<close>, which is not among
  the sources. Following the spec's Path Templater, a pattern is literal text with named
  placeholders \<^verbatim>\<open>{name}\<close>; \<^verbatim>\<open>names\<close> lists the placeholders in order and \<^verbatim>\<open>path\<close>
  substitutes every placeholder by its parameter, with no escaping. A brace that opens no
  complete non-empty placeholder is literal text.
\<close>

datatype segment = Lit string | Hole string

definition flush :: "string \<Rightarrow> segment list" where
  "flush lit = (if lit = [] then [] else [Lit lit])"

fun scan :: "string \<Rightarrow> string option \<Rightarrow> string \<Rightarrow> segment list" where
  "scan lit None [] = flush lit"
| "scan lit (Some nm) [] = flush (lit @ ''{'' @ nm)"
| "scan lit None (c # cs) =
     (if c = CHR ''{'' then scan lit (Some []) cs else scan (lit @ [c]) None cs)"
| "scan lit (Some nm) (c # cs) =
     (if c = CHR ''}''
      then (if nm = [] then scan (lit @ ''{}'') None cs
            else flush lit @ Hole nm # scan [] None cs)
      else scan lit (Some (nm @ [c])) cs)"

definition bath_segments :: "string \<Rightarrow> segment list" where
  "bath_segments pattern = scan [] None pattern"

definition bath_names :: "string \<Rightarrow> string list" where
  "bath_names pattern =
     List.map_filter (\<lambda>seg. case seg of Lit s \<Rightarrow> None | Hole n \<Rightarrow> Some n) (bath_segments pattern)"

fun fill :: "(string \<times> jsval) list \<Rightarrow> segment \<Rightarrow> string" where
  "fill params (Lit s) = s"
| "fill params (Hole n) = js_toString (obj_get params n)"

definition bath_path :: "string \<Rightarrow> (string \<times> jsval) list \<Rightarrow> string" where
  "bath_path pattern params = concat (map (fill params) (bath_segments pattern))"

text \<open>
  The loop that makes sure all path parameters are set:
  \<^verbatim>\<open>for (const name of pathBuilder.names) pathParams[name] = `${pathParams[name]}`\<close>.
\<close>

fun coercePathParams :: "string list \<Rightarrow> (string \<times> jsval) list \<Rightarrow> (string \<times> jsval) list" where
  "coercePathParams [] params = params"
| "coercePathParams (name # names) params =
     coercePathParams names (assign name (JStr (js_toString (obj_get params name))) params)"

text \<open>The path templater as the request assembler uses it: the coerced map and the path.\<close>

definition renderPath :: "string \<Rightarrow> (string \<times> jsval) list \<Rightarrow> (string \<times> jsval) list \<times> string" where
  "renderPath pattern params =
     (let params' = coercePathParams (bath_names pattern) params
      in (params', bath_path pattern params'))"

section \<open>Resolving the base URL\<close>

text \<open>An operation is given as a descriptor or by its identifier.\<close>

datatype OperationArg = OpId string | OpObj Operation

text \<open>
  The target server of the default-server selector. A numeric index outside the
  top-level list reads \<^verbatim>\<open>undefined\<close>; \<^verbatim>\<open>for (const server of this.definition.servers)\<close>
  throws when the description has no server list; a server object counts only when its
  URL is truthy.
\<close>

definition targetServer :: "OpenAPIClientAxios \<Rightarrow> Document \<Rightarrow> error + Server option" where
  "targetServer this d =
     (case defaultServer this of
        ServerIndex i \<Rightarrow>
          (case doc_servers d of
             None \<Rightarrow> Inr None
           | Some ss \<Rightarrow> if 0 \<le> i \<and> nat i < length ss then Inr (Some (ss ! nat i)) else Inr None)
      | ServerDescription s \<Rightarrow>
          (case doc_servers d of
             None \<Rightarrow> Inl TypeError
           | Some ss \<Rightarrow> Inr (find (\<lambda>server. server_description server = Some s) ss))
      | ServerObject server \<Rightarrow>
          (if server_url server \<noteq> [] then Inr (Some server) else Inr None))"

definition defaultBaseURL :: "OpenAPIClientAxios \<Rightarrow> Document \<Rightarrow> error + string option" where
  "defaultBaseURL this d =
     (case targetServer this d of
        Inl e \<Rightarrow> Inl e
      | Inr None \<Rightarrow> Inr None
      | Inr (Some server) \<Rightarrow> Inr (Some (server_url server)))"

definition operationBaseURL :: "OpenAPIClientAxios \<Rightarrow> Document \<Rightarrow> Operation \<Rightarrow> error + string option" where
  "operationBaseURL this d operation =
     (case servers operation of
        Some (server # _) \<Rightarrow> Inr (Some (server_url server))
      | _ \<Rightarrow> defaultBaseURL this d)"

text \<open>
  \<^verbatim>\<open>getBaseURL\<close>. Without a definition the result is \<^verbatim>\<open>undefined\<close>, before the operation
  is looked at. An empty identifier is falsy and counts as no operation; an identifier
  that names no operation makes \<^verbatim>\<open>operation.servers\<close> throw.
\<close>

definition getBaseURL :: "OpenAPIClientAxios \<Rightarrow> OperationArg option \<Rightarrow> error + string option" where
  "getBaseURL this operation =
     (case definition' this of
        None \<Rightarrow> Inr None
      | Some d \<Rightarrow>
          (case operation of
             None \<Rightarrow> defaultBaseURL this d
           | Some (OpObj operation') \<Rightarrow> operationBaseURL this d operation'
           | Some (OpId opId) \<Rightarrow>
               (if opId = [] then defaultBaseURL this d
                else (case getOperation this opId of
                        None \<Rightarrow> Inl TypeError
                      | Some operation' \<Rightarrow> operationBaseURL this d operation'))))"

section \<open>Assembling the request\<close>

text \<open>The argument tuple \<^verbatim>\<open>[paramsArg, payload, config]\<close>; the override is an object.\<close>

type_synonym OperationMethodArguments = "jsval \<times> jsval \<times> (string \<times> jsval) list option"

record RequestConfig = RequestParams +
  method' :: HttpMethod
  url :: string
  path :: string
  queryString :: string
  payload :: jsval

text \<open>
  \<^verbatim>\<open>getRequestConfigForOperation\<close> for a resolved operation. The query string serialiser
  \<^verbatim>\<open>QueryString.stringify\<close> is a library function and is taken as the parameter
  \<open>stringify\<close>. The base URL is interpolated into a template literal, which turns an
  absent base URL into the text \<^verbatim>\<open>undefined\<close>.
\<close>

definition requestConfig ::
  "((string \<times> jsval) list \<Rightarrow> string) \<Rightarrow> OpenAPIClientAxios \<Rightarrow> Operation \<Rightarrow>
   OperationMethodArguments \<Rightarrow> error + RequestConfig" where
  "requestConfig stringify this operation args =
     (case args of (paramsArg, payload', config) \<Rightarrow>
        (case bindParams operation paramsArg of
           Inl e \<Rightarrow> Inl e
         | Inr r \<Rightarrow>
             (case renderPath (op_path operation) (pathParams r) of (pathParams', path') \<Rightarrow>
                (let queryString' = stringify (query r) in
                   (case getBaseURL this (Some (OpObj operation)) of
                      Inl e \<Rightarrow> Inl e
                    | Inr baseURL \<Rightarrow>
                        Inr \<lparr> pathParams = pathParams',
                              query = query r,
                              headers = headers r,
                              cookies = cookies r,
                              method' = op_method operation,
                              url = (case baseURL of None \<Rightarrow> ''undefined'' | Some u \<Rightarrow> u) @ path' @
                                    (if queryString' \<noteq> [] then ''?'' @ queryString' else []),
                              path = path',
                              queryString = queryString',
                              payload = payload' \<rparr>)))))"

text \<open>
  An operation given by an identifier is looked up first; when no operation has that
  identifier the first property read on the absent operation throws.
\<close>

definition getRequestConfigForOperation ::
  "((string \<times> jsval) list \<Rightarrow> string) \<Rightarrow> OpenAPIClientAxios \<Rightarrow> OperationArg \<Rightarrow>
   OperationMethodArguments \<Rightarrow> error + RequestConfig" where
  "getRequestConfigForOperation stringify this operation args =
     (case operation of
        OpObj operation' \<Rightarrow> requestConfig stringify this operation' args
      | OpId opId \<Rightarrow>
          (case getOperation this opId of
             None \<Rightarrow> Inl TypeError
           | Some operation' \<Rightarrow> requestConfig stringify this operation' args))"

section \<open>Merging the override\<close>



text \<open>
  \<^verbatim>\<open>_.merge(object, source)\<close> is lodash's recursive merge. lodash is a dependency, so the
  merge is modelled after the library's documented behaviour and its \<^verbatim>\<open>baseMerge\<close>,
  \<^verbatim>\<open>baseMergeDeep\<close> and \<^verbatim>\<open>assignMergeValue\<close>: source properties that resolve to
  \<^verbatim>\<open>undefined\<close> are skipped if a destination value exists; array and plain object
  properties are merged recursively; other values are overridden by assignment. An array
  source is merged into an array destination (or into a copy of an array-like object, or
  into a fresh array), index by index and then property by property; a plain object
  source is merged into an object or array destination, or into a fresh object when the
  destination is neither. Merging a plain object into an array sets the object's
  properties on the array, which is where the array operations below come in.
\<close>





















section \<open>Notions used to state the properties\<close>

text \<open>The map of a request descriptor that holds the parameters of a location.\<close>

definition locationMap :: "ParamType \<Rightarrow> 'a RequestParams_scheme \<Rightarrow> (string \<times> jsval) list" where
  "locationMap t r =
     (case t of Path \<Rightarrow> pathParams r | Query \<Rightarrow> query r | Header \<Rightarrow> headers r | Cookie \<Rightarrow> cookies r)"

text \<open>The text of a segment in a pattern.\<close>

fun unparse :: "segment \<Rightarrow> string" where
  "unparse (Lit s) = s"
| "unparse (Hole n) = ''{'' @ n @ ''}''"

text \<open>The values a caller supplies in the first argument, whatever its shape.\<close>

fun suppliedValues :: "jsval \<Rightarrow> jsval list" where
  "suppliedValues (JArr params ps) =
     concat (map (\<lambda>param. case paramField param ''value'' of Inl e \<Rightarrow> [] | Inr v \<Rightarrow> [v]) params)"
| "suppliedValues (JObj kvs) = map snd kvs"
| "suppliedValues JNull = []"
| "suppliedValues JUndefined = []"
| "suppliedValues v = [v]"


text \<open>\<^verbatim>\<open>_.isArray\<close>.\<close>

fun isArray :: "jsval \<Rightarrow> bool" where
  "isArray (JArr xs ps) = True"
| "isArray v = False"



text \<open>
  The property key and the location an element of a parameter array is placed under, as
  the array loop computes them: the name coerced to a string, and the element's own
  \<^verbatim>\<open>in\<close> when that is truthy, else the classified location of its name.
\<close>

definition explicitName :: "jsval \<Rightarrow> string" where
  "explicitName param = (case paramField param ''name'' of Inl e \<Rightarrow> [] | Inr nm \<Rightarrow> js_toString nm)"

definition explicitType :: "Operation \<Rightarrow> jsval \<Rightarrow> jsval" where
  "explicitType operation param =
     (case paramField param ''name'' of
        Inl e \<Rightarrow> JUndefined
      | Inr nm \<Rightarrow>
          (case paramField param ''in'' of
             Inl e \<Rightarrow> JUndefined
           | Inr loc \<Rightarrow>
               if truthy loc then loc else JStr (ParamType_str (getParamType operation nm))))"



text \<open>
  The location a type string of \<^verbatim>\<open>setRequestParam\<close> selects, and the placements of names
  under locations that binding the first argument performs: one per element of a
  parameter array whose type is one of the four locations, one per key of a mapping
  whose value is truthy, one for a scalar when the operation has a parameter for it.
\<close>

definition ParamType_of :: "string \<Rightarrow> ParamType option" where
  "ParamType_of type = find (\<lambda>t. ParamType_str t = type) [Path, Query, Header, Cookie]"

fun placements :: "Operation \<Rightarrow> jsval \<Rightarrow> (string \<times> ParamType) list" where
  "placements operation (JArr params ps) =
     List.map_filter
       (\<lambda>param. case explicitType operation param of
                   JStr type \<Rightarrow> map_option (Pair (explicitName param)) (ParamType_of type)
                 | _ \<Rightarrow> None)
       params"
| "placements operation (JObj kvs) =
     map (\<lambda>name. (name, getParamType operation (JStr name)))
       (filter (\<lambda>name. truthy (obj_get kvs name)) (map fst kvs))"
| "placements operation JNull = []"
| "placements operation JUndefined = []"
| "placements operation paramsArg =
     (case getFirstOperationParam operation of
        None \<Rightarrow> []
      | Some firstParam \<Rightarrow> [(param_name firstParam, param_in firstParam)])"

section \<open>An example description\<close>

text \<open>
  The description of the spec's end-to-end scenario, slightly extended: the path
  \<^verbatim>\<open>/pets/{id}\<close> with the operation \<^verbatim>\<open>getPet\<close>, which declares an optional query
  parameter before its required path parameter \<^verbatim>\<open>id\<close>; two parameters declared at the
  path level, one of them under a name the operation declares too; and two servers.
\<close>

definition idParam :: Parameter where
  "idParam = \<lparr> param_name = ''id'', param_in = Path, param_required = Some True \<rparr>"

definition verboseParam :: Parameter where
  "verboseParam = \<lparr> param_name = ''verbose'', param_in = Query, param_required = None \<rparr>"

definition traceParam :: Parameter where
  "traceParam = \<lparr> param_name = ''X-Trace'', param_in = Header, param_required = Some False \<rparr>"

definition pathVerboseParam :: Parameter where
  "pathVerboseParam = \<lparr> param_name = ''verbose'', param_in = Cookie, param_required = None \<rparr>"

definition prodServer :: Server where
  "prodServer = \<lparr> server_url = ''https://api.example.com'', server_description = Some ''prod'' \<rparr>"

definition stagingServer :: Server where
  "stagingServer =
     \<lparr> server_url = ''https://staging.example.com'', server_description = Some ''staging'' \<rparr>"

definition overrideServer :: Server where
  "overrideServer = \<lparr> server_url = ''https://op-override'', server_description = None \<rparr>"

definition emptyServer :: Server where
  "emptyServer = \<lparr> server_url = [], server_description = None \<rparr>"

definition getPetObject :: OperationObject where
  "getPetObject =
     \<lparr> operationId = Some ''getPet'', parameters = Some [verboseParam, idParam], servers = None \<rparr>"

definition petItem :: PathItemObject where
  "petItem =
     \<lparr> item_methods = (\<lambda>m. if m = Get then Some getPetObject else None),
       item_parameters = Some [traceParam, pathVerboseParam],
       item_servers = None \<rparr>"

definition petDocument :: Document where
  "petDocument =
     \<lparr> doc_paths = [(''/pets/{id}'', petItem)],
       doc_servers = Some [prodServer, stagingServer] \<rparr>"

definition petClient :: OpenAPIClientAxios where
  "petClient = \<lparr> definition' = Some petDocument, defaultServer = ServerIndex 0 \<rparr>"

definition getPet :: Operation where
  "getPet = flattenOperation ''/pets/{id}'' petItem Get getPetObject"

text \<open>Operations given as descriptors: without a required parameter, without parameters.\<close>

definition listPets :: Operation where
  "listPets =
     \<lparr> operationId = Some ''listPets'', parameters = Some [verboseParam, traceParam],
       servers = None, op_path = ''/pets'', op_method = Get \<rparr>"


text \<open>A client whose description has no server list, and a client with no description.\<close>

definition bareClient :: OpenAPIClientAxios where
  "bareClient =
     \<lparr> definition' = Some \<lparr> doc_paths = [], doc_servers = None \<rparr>, defaultServer = ServerIndex 0 \<rparr>"


text \<open>
  A stand-in for the query string serialiser in evaluated examples. It is right on the
  empty query map, which \<^verbatim>\<open>QueryString.stringify\<close> turns into the empty string, and is
  used only where the query map is empty.
\<close>

definition stringifyEmpty :: "(string \<times> jsval) list \<Rightarrow> string" where
  "stringifyEmpty q = []"


section \<open>Basic facts about objects and locations\<close>

lemma map_of_assign: "map_of (assign k v kvs) = (map_of kvs)(k \<mapsto> v)"
  by (induction kvs) auto

lemma obj_get_assign: "obj_get (assign k v kvs) k' = (if k' = k then v else obj_get kvs k')"
  by (simp add: obj_get_def map_of_assign)

lemma obj_get_absent: "n \<notin> fst ` set kvs \<Longrightarrow> obj_get kvs n = JUndefined"
  by (simp add: obj_get_def map_of_eq_None_iff [THEN iffD2])

lemma ParamType_str_inj [simp]: "ParamType_str t = ParamType_str t' \<longleftrightarrow> t = t'"
  by (cases t; cases t') simp_all

lemma locationMap_set:
  "map_of (locationMap t (setRequestParam n v (ParamType_str t') r)) k =
     (if t = t' \<and> k = n then Some v else map_of (locationMap t r) k)"
  by (cases t; cases t') (simp_all add: locationMap_def setRequestParam_def map_of_assign)

lemma locationMap_noParams [simp]: "locationMap t noParams = []"
  by (cases t) (simp_all add: locationMap_def noParams_def)

section \<open>The path templater\<close>

lemma coerce_map_of:
  "map_of (coercePathParams names params) n =
     (if n \<in> set names then Some (JStr (js_toString (obj_get params n))) else map_of params n)"
  by (induction names arbitrary: params) (auto simp: map_of_assign obj_get_assign)

lemma coerce_obj_get:
  "obj_get (coercePathParams names params) n =
     (if n \<in> set names then JStr (js_toString (obj_get params n)) else obj_get params n)"
  by (simp add: obj_get_def coerce_map_of)

lemma scan_unparse:
  "concat (map unparse (scan lit st cs)) =
     lit @ (case st of None \<Rightarrow> [] | Some nm \<Rightarrow> ''{'' @ nm) @ cs"
  by (induction lit st cs rule: scan.induct) (auto simp: flush_def)

lemma bath_segments_unparse: "concat (map unparse (bath_segments pattern)) = pattern"
  by (simp add: bath_segments_def scan_unparse)

lemma Hole_in_names: "Hole n \<in> set (bath_segments pattern) \<longleftrightarrow> n \<in> set (bath_names pattern)"
proof -
  have "n \<in> set (List.map_filter (\<lambda>seg. case seg of Lit s \<Rightarrow> None | Hole n \<Rightarrow> Some n) segs)
          \<longleftrightarrow> Hole n \<in> set segs" for segs
    by (induction segs) (auto split: segment.splits)
  then show ?thesis by (simp add: bath_names_def)
qed

lemma fill_coerced:
  "seg \<in> set (bath_segments pattern) \<Longrightarrow>
   fill (coercePathParams (bath_names pattern) params) seg = fill params seg"
  by (cases seg) (auto simp: coerce_obj_get Hole_in_names)

lemma bath_path_coerced:
  "bath_path pattern (coercePathParams (bath_names pattern) params) = bath_path pattern params"
  unfolding bath_path_def by (rule arg_cong [where f = concat]) (simp add: fill_coerced)

section \<open>Facts about binding, the catalog and the merge\<close>

lemma find_first: "ps = pre @ p # post \<Longrightarrow> P p \<Longrightarrow> \<forall>q\<in>set pre. \<not> P q \<Longrightarrow> find P ps = Some p"
  by (induction pre arbitrary: ps) auto

lemma find_none: "\<forall>q\<in>set ps. \<not> P q \<Longrightarrow> find P ps = None"
  by (induction ps) auto


lemma locationMap_setRequestParam_noParams:
  "locationMap t (setRequestParam n v (ParamType_str t') noParams) = (if t = t' then [(n, v)] else [])"
  by (cases t; cases t') (simp_all add: locationMap_def setRequestParam_def noParams_def)




lemma requestConfig_Inr:
  "requestConfig stringify this operation (paramsArg, body, config) = Inr c \<Longrightarrow>
   \<exists>r. bindParams operation paramsArg = Inr r \<and>
       pathParams c = coercePathParams (bath_names (op_path operation)) (pathParams r) \<and>
       query c = query r \<and> headers c = headers r \<and> cookies c = cookies r \<and>
       payload c = body \<and> path c = bath_path (op_path operation) (pathParams r)"
  by (auto simp: requestConfig_def renderPath_def Let_def bath_path_coerced split: sum.splits)

lemma locationMap_config:
  "pathParams c = coercePathParams names (pathParams r) \<Longrightarrow> query c = query r \<Longrightarrow>
   headers c = headers r \<Longrightarrow> cookies c = cookies r \<Longrightarrow>
   map_of (locationMap t c) n =
     (if t = Path \<and> n \<in> set names then Some (JStr (js_toString (obj_get (pathParams r) n)))
      else map_of (locationMap t r) n)"
  by (cases t) (simp_all add: locationMap_def coerce_map_of)


lemma bindObject_map_of:
  "map_of (locationMap t (bindObject operation kvs names r)) n =
     (if n \<in> set names \<and> truthy (obj_get kvs n) \<and> getParamType operation (JStr n) = t
      then Some (obj_get kvs n) else map_of (locationMap t r) n)"
  by (induction names arbitrary: r) (auto simp: locationMap_set)

lemma truthy_obj_get_key: "truthy (obj_get kvs n) \<Longrightarrow> n \<in> fst ` set kvs"
  by (rule ccontr) (simp add: obj_get_absent)

lemma bindParams_object_map_of:
  assumes "bindParams operation (JObj kvs) = Inr r"
  shows "map_of (locationMap t r) n =
     (if truthy (obj_get kvs n) \<and> getParamType operation (JStr n) = t
      then Some (obj_get kvs n) else None)"
proof -
  from assms have r: "r = bindObject operation kvs (map fst kvs) noParams" by simp
  show ?thesis using truthy_obj_get_key [of kvs n] by (auto simp: r bindObject_map_of)
qed

lemma getRequestConfig_OpObj:
  "getRequestConfigForOperation stringify this (OpObj operation) args =
     requestConfig stringify this operation args"
  by (simp add: getRequestConfigForOperation_def)

lemma setRequestParam_value:
  "map_of (locationMap t (setRequestParam n v ty r)) k = Some w \<Longrightarrow>
   w = v \<or> map_of (locationMap t r) k = Some w"
  by (cases t) (auto simp: locationMap_def setRequestParam_def map_of_assign split: if_splits)

lemma bindExplicit_value:
  "bindExplicit operation param r = Inr r' \<Longrightarrow> map_of (locationMap t r') k = Some w \<Longrightarrow>
   paramField param ''value'' = Inr w \<or> map_of (locationMap t r) k = Some w"
  by (auto simp: bindExplicit_def split: sum.splits jsval.splits if_splits dest: setRequestParam_value)

lemma bindArray_value:
  "bindArray operation params r = Inr r' \<Longrightarrow> map_of (locationMap t r') k = Some w \<Longrightarrow>
   w \<in> set (suppliedValues (JArr params ps)) \<or> map_of (locationMap t r) k = Some w"
proof (induction params arbitrary: r)
  case Nil
  then show ?case by simp
next
  case (Cons param params)
  from Cons.prems(1) obtain r1 where r1: "bindExplicit operation param r = Inr r1"
    and rest: "bindArray operation params r1 = Inr r'"
    by (auto split: sum.splits)
  from Cons.IH [OF rest Cons.prems(2)]
  consider "w \<in> set (suppliedValues (JArr params ps))" | "map_of (locationMap t r1) k = Some w"
    by blast
  then show ?case
  proof cases
    case 1
    then show ?thesis by auto
  next
    case 2
    from bindExplicit_value [OF r1 2] show ?thesis by auto
  qed
qed

lemma bindParams_value:
  assumes "bindParams operation paramsArg = Inr r" and "map_of (locationMap t r) k = Some w"
  shows "w \<in> set (suppliedValues paramsArg)"
proof (cases paramsArg)
  case (JArr params ps)
  with assms bindArray_value [of operation params noParams r t k w] show ?thesis by simp
next
  case (JObj kvs)
  with assms bindParams_object_map_of [of operation kvs r t k]
  have "truthy (obj_get kvs k)" and "w = obj_get kvs k" by (auto split: if_splits)
  then have "map_of kvs k = Some w" by (auto simp: obj_get_def split: option.splits)
  then have "(k, w) \<in> set kvs" by (rule map_of_SomeD)
  then show ?thesis using JObj by force
qed (use assms in \<open>auto split: option.splits dest: setRequestParam_value\<close>)

lemma getFirst_in_set:
  "getFirstOperationParam operation = Some p \<Longrightarrow> p \<in> set (orEmpty (parameters operation))"
  by (auto simp: getFirstOperationParam_def find_Some_iff split: option.splits list.splits)


lemma HttpMethod_values_complete: "m \<in> set HttpMethod_values"
  by (cases m) (simp_all add: HttpMethod_values_def)

lemma set_pickMethods:
  "set (pickMethods pathObject) = {(m, operation). item_methods pathObject m = Some operation}"
proof -
  have "set (List.map_filter
          (\<lambda>m. case item_methods pathObject m of None \<Rightarrow> None | Some operation \<Rightarrow> Some (m, operation)) ms)
        = {(m, operation). m \<in> set ms \<and> item_methods pathObject m = Some operation}" for ms
    by (induction ms) (auto split: option.splits)
  then show ?thesis by (simp add: pickMethods_def HttpMethod_values_complete)
qed

lemma set_getOperations:
  "definition' this = Some d \<Longrightarrow>
   set (getOperations this) =
     {flattenOperation p pathObject m operation | p pathObject m operation.
        (p, pathObject) \<in> set (doc_paths d) \<and> item_methods pathObject m = Some operation}"
proof -
  assume d: "definition' this = Some d"
  have po: "set (pathOperations entry) =
      {flattenOperation (fst entry) (snd entry) m operation | m operation.
         item_methods (snd entry) m = Some operation}" for entry
    by (auto simp: pathOperations_def set_pickMethods)
  show ?thesis
    unfolding getOperations_def d by (simp add: po) fastforce
qed

lemma find_append_first:
  "find P xs = Some x \<Longrightarrow> find P (xs @ ys) = Some x"
  by (induction xs) (auto split: if_splits)

lemma flatten_parameters:
  "orEmpty (parameters (flattenOperation p pathObject m operation)) =
     orEmpty (parameters operation) @ orEmpty (item_parameters pathObject)"
  by (simp add: flattenOperation_def orEmpty_def split: option.splits)

lemma getPet_eval:
  "getPet = \<lparr> operationId = Some ''getPet'',
              parameters = Some [verboseParam, idParam, traceParam, pathVerboseParam],
              servers = None, op_path = ''/pets/{id}'', op_method = Get \<rparr>"
  by (simp add: getPet_def flattenOperation_def petItem_def getPetObject_def orEmpty_def)



lemma bindExplicit_fields:
  assumes "bindExplicit operation param r = Inr r'"
  shows "\<exists>nm v loc. paramField param ''name'' = Inr nm \<and>
    paramField param ''value'' = Inr v \<and> paramField param ''in'' = Inr loc \<and>
    r' = (case (if truthy loc then loc else JStr (ParamType_str (getParamType operation nm))) of
            JStr type \<Rightarrow> setRequestParam (js_toString nm) v type r
          | _ \<Rightarrow> r)"
proof (cases "paramField param ''name''")
  case (Inl a)
  with assms show ?thesis by (simp add: bindExplicit_def)
next
  case nm: (Inr nm)
  show ?thesis
  proof (cases "paramField param ''value''")
    case (Inl a)
    with assms nm show ?thesis by (simp add: bindExplicit_def)
  next
    case v: (Inr v)
    show ?thesis
    proof (cases "paramField param ''in''")
      case (Inl a)
      with assms nm v show ?thesis by (simp add: bindExplicit_def)
    next
      case (Inr loc)
      with assms nm v show ?thesis
        by (cases "if truthy loc then loc else JStr (ParamType_str (getParamType operation nm))")
           (simp_all add: bindExplicit_def)
    qed
  qed
qed


lemma placeholder_bound_elsewhere:
  "getRequestConfigForOperation stringifyEmpty petClient
       (OpObj (getPet\<lparr>parameters := Some [idParam\<lparr>param_in := Header\<rparr>]\<rparr>))
       (JNum 5, JUndefined, None) =
     Inr \<lparr> pathParams = [(''id'', JStr ''undefined'')], query = [], headers = [(''id'', JNum 5)],
           cookies = [], method' = Get, url = ''https://api.example.com/pets/undefined'',
           path = ''/pets/undefined'', queryString = [], payload = JUndefined \<rparr>"
  by code_simp

lemma getBaseURL_throws:
  "getBaseURL this (Some (OpObj operation)) = Inl e \<longleftrightarrow>
     e = TypeError \<and>
     (\<exists>d s. definition' this = Some d \<and> orEmpty (servers operation) = [] \<and>
            defaultServer this = ServerDescription s \<and> doc_servers d = None)"
  by (auto simp: getBaseURL_def operationBaseURL_def defaultBaseURL_def targetServer_def orEmpty_def
      split: option.splits list.splits DefaultServer.splits sum.splits if_splits)

lemma requestConfig_built:
  "bindParams operation paramsArg = Inr r \<Longrightarrow> getBaseURL this (Some (OpObj operation)) = Inr b \<Longrightarrow>
   \<exists>c. getRequestConfigForOperation stringify this (OpObj operation) (paramsArg, body, config) = Inr c"
  by (simp add: getRequestConfigForOperation_def requestConfig_def renderPath_def Let_def)

lemma bindParams_mapping_total: "\<exists>r. bindParams operation (JObj kvs) = Inr r"
  by simp

section \<open>Merging\<close>


























section \<open>Where binding places a name\<close>

lemma ParamType_of_str: "ParamType_of (ParamType_str t) = Some t"
  by (cases t) (simp_all add: ParamType_of_def)

lemma ParamType_of_Some: "ParamType_of type = Some t \<Longrightarrow> type = ParamType_str t"
  by (auto simp: ParamType_of_def split: if_splits)

lemma ParamType_of_iff: "ParamType_of type = Some t \<longleftrightarrow> type = ParamType_str t"
  using ParamType_of_Some ParamType_of_str by blast

lemma setRequestParam_other: "ParamType_of type = None \<Longrightarrow> setRequestParam n v type r = r"
  by (auto simp: ParamType_of_def setRequestParam_def split: if_splits)

lemma setRequestParam_bound:
  "map_of (locationMap t (setRequestParam n v type r)) k \<noteq> None \<longleftrightarrow>
     (k = n \<and> type = ParamType_str t) \<or> map_of (locationMap t r) k \<noteq> None"
proof (cases "ParamType_of type")
  case None
  then have "type \<noteq> ParamType_str t" by (auto simp: ParamType_of_str)
  with None show ?thesis by (simp add: setRequestParam_other)
next
  case (Some t')
  then have "type = ParamType_str t'" by (rule ParamType_of_Some)
  then show ?thesis by (auto simp: locationMap_set)
qed

lemma bindExplicit_bound:
  assumes "bindExplicit operation param r = Inr r'"
  shows "map_of (locationMap t r') k \<noteq> None \<longleftrightarrow>
     (k = explicitName param \<and> explicitType operation param = JStr (ParamType_str t)) \<or>
     map_of (locationMap t r) k \<noteq> None"
proof -
  from bindExplicit_fields [OF assms] obtain nm v loc where
    f: "paramField param ''name'' = Inr nm" "paramField param ''value'' = Inr v"
       "paramField param ''in'' = Inr loc"
    and r': "r' = (case (if truthy loc then loc else JStr (ParamType_str (getParamType operation nm))) of
            JStr type \<Rightarrow> setRequestParam (js_toString nm) v type r
          | _ \<Rightarrow> r)"
    by blast
  have n: "explicitName param = js_toString nm" by (simp add: explicitName_def f)
  have ty: "explicitType operation param =
      (if truthy loc then loc else JStr (ParamType_str (getParamType operation nm)))"
    by (simp add: explicitType_def f)
  show ?thesis
    unfolding n ty r'
    by (cases "if truthy loc then loc else JStr (ParamType_str (getParamType operation nm))")
       (simp_all add: setRequestParam_bound del: not_None_eq)
qed

lemma placements_array:
  "(n, t) \<in> set (placements operation (JArr params ps)) \<longleftrightarrow>
     (\<exists>param\<in>set params. explicitName param = n \<and>
        explicitType operation param = JStr (ParamType_str t))"
proof (induction params)
  case Nil
  then show ?case by (simp add: List.map_filter_simps)
next
  case (Cons param params)
  have "(case explicitType operation param of
            JStr type \<Rightarrow> map_option (Pair (explicitName param)) (ParamType_of type)
          | _ \<Rightarrow> None) = Some (n, t) \<longleftrightarrow>
        explicitName param = n \<and> explicitType operation param = JStr (ParamType_str t)"
    by (cases "explicitType operation param") (auto simp: ParamType_of_iff)
  with Cons show ?case
    by (auto simp: List.map_filter_simps split: option.splits)
qed

lemma bindArray_bound:
  "bindArray operation params r = Inr r' \<Longrightarrow>
   (map_of (locationMap t r') k \<noteq> None \<longleftrightarrow>
      (k, t) \<in> set (placements operation (JArr params ps)) \<or> map_of (locationMap t r) k \<noteq> None)"
proof (induction params arbitrary: r)
  case Nil
  then show ?case by (simp add: List.map_filter_simps)
next
  case (Cons param params)
  from Cons.prems obtain r1 where r1: "bindExplicit operation param r = Inr r1"
    and rest: "bindArray operation params r1 = Inr r'"
    by (auto split: sum.splits)
  show ?case
    unfolding Cons.IH [OF rest] bindExplicit_bound [OF r1] placements_array by auto
qed

lemma placements_mapping:
  "(n, t) \<in> set (placements operation (JObj kvs)) \<longleftrightarrow>
     truthy (obj_get kvs n) \<and> getParamType operation (JStr n) = t"
  using truthy_obj_get_key [of kvs n] by auto

lemma placements_scalar:
  "isScalar v \<Longrightarrow>
   (n, t) \<in> set (placements operation v) \<longleftrightarrow>
     (\<exists>p. getFirstOperationParam operation = Some p \<and> param_name p = n \<and> param_in p = t)"
  by (cases v; cases "getFirstOperationParam operation") auto

lemma placements_nil: "v = JNull \<or> v = JUndefined \<Longrightarrow> placements operation v = []"
  by auto

lemma bindParams_bound:
  assumes "bindParams operation paramsArg = Inr r"
  shows "map_of (locationMap t r) k \<noteq> None \<longleftrightarrow> (k, t) \<in> set (placements operation paramsArg)"
proof (cases paramsArg)
  case (JArr params ps)
  with assms bindArray_bound [of operation params noParams r t k ps] show ?thesis by simp
next
  case (JObj kvs)
  with assms bindParams_object_map_of [of operation kvs r t k] show ?thesis
    by (simp add: placements_mapping del: placements.simps)
qed (use assms in \<open>auto simp: locationMap_setRequestParam_noParams split: option.splits if_splits\<close>)

lemma placements_one:
  "\<not> isArray paramsArg \<Longrightarrow> (n, t) \<in> set (placements operation paramsArg) \<Longrightarrow>
   (n, t') \<in> set (placements operation paramsArg) \<Longrightarrow> t = t'"
  by (cases paramsArg; cases "getFirstOperationParam operation") auto

lemma descriptor_bound:
  assumes "getRequestConfigForOperation stringify this (OpObj operation) (paramsArg, body, config) = Inr c"
  shows "map_of (locationMap t c) n \<noteq> None \<longleftrightarrow>
     (n, t) \<in> set (placements operation paramsArg) \<or>
     (t = Path \<and> n \<in> set (bath_names (op_path operation)))"
proof -
  from assms have "requestConfig stringify this operation (paramsArg, body, config) = Inr c"
    by (simp add: getRequestConfig_OpObj)
  from requestConfig_Inr [OF this] obtain r where r: "bindParams operation paramsArg = Inr r"
    and m: "pathParams c = coercePathParams (bath_names (op_path operation)) (pathParams r)"
      "query c = query r" "headers c = headers r" "cookies c = cookies r"
    by blast
  show ?thesis
    using locationMap_config [OF m, of t n] bindParams_bound [OF r, of t n] by auto
qed

lemma two_locations:
  assumes a: "\<And>t. B t \<longleftrightarrow> P t \<or> (t = Path \<and> N)"
  shows "(\<exists>t t'. t \<noteq> t' \<and> B t \<and> B t') \<longleftrightarrow>
     (\<exists>t t'. t \<noteq> t' \<and> P t \<and> P t') \<or> (N \<and> (\<exists>t. t \<noteq> Path \<and> P t))"
proof
  assume "\<exists>t t'. t \<noteq> t' \<and> B t \<and> B t'"
  then obtain t t' where d: "t \<noteq> t'" and "B t" "B t'" by blast
  then have 1: "P t \<or> (t = Path \<and> N)" and 2: "P t' \<or> (t' = Path \<and> N)" by (simp_all add: a)
  show "(\<exists>t t'. t \<noteq> t' \<and> P t \<and> P t') \<or> (N \<and> (\<exists>t. t \<noteq> Path \<and> P t))"
  proof (cases "P t \<and> P t'")
    case True
    with d show ?thesis by blast
  next
    case False
    with 1 2 d show ?thesis by metis
  qed
next
  assume "(\<exists>t t'. t \<noteq> t' \<and> P t \<and> P t') \<or> (N \<and> (\<exists>t. t \<noteq> Path \<and> P t))"
  then show "\<exists>t t'. t \<noteq> t' \<and> B t \<and> B t'"
  proof
    assume "\<exists>t t'. t \<noteq> t' \<and> P t \<and> P t'"
    then show ?thesis by (auto simp: a)
  next
    assume "N \<and> (\<exists>t. t \<noteq> Path \<and> P t)"
    then obtain t where "N" "t \<noteq> Path" "P t" by blast
    then have "B Path" "B t" by (simp_all add: a)
    with \<open>t \<noteq> Path\<close> show ?thesis by blast
  qed
qed

lemma two_locations_one:
  assumes a: "\<And>t. B t \<longleftrightarrow> P t \<or> (t = Path \<and> N)"
    and one: "\<And>t t'. P t \<Longrightarrow> P t' \<Longrightarrow> t = t'"
  shows "(\<exists>t t'. t \<noteq> t' \<and> B t \<and> B t') \<longleftrightarrow> N \<and> (\<exists>t. t \<noteq> Path \<and> P t)"
  unfolding two_locations [of B P N, OF a] using one by blast


section \<open>The claims\<close>



text \<open>
  C2, as the code has it. For a mapping argument, binding yields exactly the keys whose
  values are truthy, each in the map of its declared location (the query when undeclared).
  In the request descriptor this still holds for the query, header and cookie maps, and
  for every name in the path map that is no placeholder of the path; a placeholder of the
  path, however, is always present in the path map, bound to the string form of its
  value, or to the text \<^verbatim>\<open>undefined\<close> when its value was falsy, absent or placed elsewhere.
  The statement is about descriptors that are built, which is every case in which
  resolving the base URL does not throw.
\<close>

theorem C2_mapping_binding:
  assumes "getRequestConfigForOperation stringify this (OpObj operation) (JObj kvs, body, config) = Inr c"
  shows "(\<exists>r. bindParams operation (JObj kvs) = Inr r \<and>
            (\<forall>t n. map_of (locationMap t r) n =
               (if truthy (obj_get kvs n) \<and> getParamType operation (JStr n) = t
                then Some (obj_get kvs n) else None))) \<and>
         (\<forall>t n. t \<noteq> Path \<or> n \<notin> set (bath_names (op_path operation)) \<longrightarrow>
            map_of (locationMap t c) n =
              (if truthy (obj_get kvs n) \<and> getParamType operation (JStr n) = t
               then Some (obj_get kvs n) else None)) \<and>
         (\<forall>n\<in>set (bath_names (op_path operation)).
            map_of (pathParams c) n =
              Some (JStr (js_toString
                (if truthy (obj_get kvs n) \<and> getParamType operation (JStr n) = Path
                 then obj_get kvs n else JUndefined))))"
proof -
  from assms have "requestConfig stringify this operation (JObj kvs, body, config) = Inr c"
    by (simp add: getRequestConfig_OpObj)
  from requestConfig_Inr [OF this] obtain r where r: "bindParams operation (JObj kvs) = Inr r"
    and m: "pathParams c = coercePathParams (bath_names (op_path operation)) (pathParams r)"
      "query c = query r" "headers c = headers r" "cookies c = cookies r"
    by blast
  note b = bindParams_object_map_of [OF r]
  have g: "obj_get (pathParams r) n =
      (if truthy (obj_get kvs n) \<and> getParamType operation (JStr n) = Path
       then obj_get kvs n else JUndefined)" for n
    using b [of Path n] by (simp add: obj_get_def locationMap_def)
  have 1: "\<exists>r. bindParams operation (JObj kvs) = Inr r \<and>
            (\<forall>t n. map_of (locationMap t r) n =
               (if truthy (obj_get kvs n) \<and> getParamType operation (JStr n) = t
                then Some (obj_get kvs n) else None))"
    using r b by blast
  have 2: "map_of (locationMap t c) n =
              (if truthy (obj_get kvs n) \<and> getParamType operation (JStr n) = t
               then Some (obj_get kvs n) else None)"
    if "t \<noteq> Path \<or> n \<notin> set (bath_names (op_path operation))" for t n
    using that locationMap_config [OF m, of t n] b [of t n] by auto
  have 3: "map_of (pathParams c) n =
              Some (JStr (js_toString
                (if truthy (obj_get kvs n) \<and> getParamType operation (JStr n) = Path
                 then obj_get kvs n else JUndefined)))"
    if "n \<in> set (bath_names (op_path operation))" for n
    using that locationMap_config [OF m, of Path n] g [of n] by (simp add: locationMap_def)
  show ?thesis using 1 2 3 by blast
qed

text \<open>
  The claim as stated fails: \<^verbatim>\<open>getPet({ id: 0 })\<close> has the falsy value 0 under \<^verbatim>\<open>id\<close>, and
  the descriptor's path map contains \<^verbatim>\<open>id\<close>, bound to the text \<^verbatim>\<open>undefined\<close>.
\<close>

theorem C2_mapping_binding_counterexample:
  "\<not> truthy (JNum 0) \<and>
   getRequestConfigForOperation stringifyEmpty petClient (OpObj getPet)
       (JObj [(''id'', JNum 0)], JUndefined, None) =
     Inr \<lparr> pathParams = [(''id'', JStr ''undefined'')], query = [], headers = [], cookies = [],
           method' = Get, url = ''https://api.example.com/pets/undefined'',
           path = ''/pets/undefined'', queryString = [], payload = JUndefined \<rparr>"
  by code_simp

theorem C2_mapping_binding_witness:
  "getRequestConfigForOperation stringifyEmpty petClient (OpObj getPet)
       (JObj [(''id'', JNum 42), (''verbose'', JNum 0), (''X-Trace'', JStr ''t1'')], JNull, None) =
     Inr \<lparr> pathParams = [(''id'', JStr ''42'')], query = [], headers = [(''X-Trace'', JStr ''t1'')],
           cookies = [], method' = Get, url = ''https://api.example.com/pets/42'',
           path = ''/pets/42'', queryString = [], payload = JNull \<rparr> \<and>
   map_of ([] :: (string \<times> jsval) list) ''verbose'' = None \<and>
   map_of [(''X-Trace'', JStr ''t1'')] ''X-Trace'' = Some (JStr ''t1'') \<and>
   map_of [(''id'', JStr ''42'')] ''id'' = Some (JStr ''42'')"
proof -
  define kvs where "kvs = [(''id'', JNum 42), (''verbose'', JNum 0), (''X-Trace'', JStr ''t1'')]"
  define c :: RequestConfig where
    "c = \<lparr> pathParams = [(''id'', JStr ''42'')], query = [], headers = [(''X-Trace'', JStr ''t1'')],
           cookies = [], method' = Get, url = ''https://api.example.com/pets/42'',
           path = ''/pets/42'', queryString = [], payload = JNull \<rparr>"
  have e: "getRequestConfigForOperation stringifyEmpty petClient (OpObj getPet) (JObj kvs, JNull, None)
      = Inr c"
    unfolding kvs_def c_def by code_simp
  have n: "bath_names (op_path getPet) = [''id'']" by code_simp
  have g: "obj_get kvs ''verbose'' = JNum 0" "obj_get kvs ''X-Trace'' = JStr ''t1''"
    "obj_get kvs ''id'' = JNum 42"
    "getParamType getPet (JStr ''X-Trace'') = Header" "getParamType getPet (JStr ''id'') = Path"
    unfolding kvs_def by code_simp+
  have j: "js_toString (JNum 42) = ''42''" by code_simp
  note t = C2_mapping_binding [OF e]
  from t have "map_of (locationMap Query c) ''verbose'' = None"
    using g n by simp
  moreover from t have "map_of (locationMap Header c) ''X-Trace'' = Some (JStr ''t1'')"
    using g n by simp
  moreover from t have "map_of (pathParams c) ''id'' = Some (JStr ''42'')"
    using g n j by simp
  ultimately show ?thesis using e unfolding kvs_def c_def by (simp add: locationMap_def)
qed

text \<open>
  C3. Path rendering, for every pattern and every map of bound path parameters: each
  placeholder name of the pattern ends up bound to the string form of its value, which is
  the text \<^verbatim>\<open>undefined\<close> when nothing was bound (\<open>obj_get\<close> reads an absent key as
  \<open>JUndefined\<close>); names that are no placeholder keep their binding; and the rendered path
  is the pattern, segment by segment, with every placeholder replaced by that string, so
  no placeholder segment of the pattern is left unsubstituted.
\<close>

theorem C3_path_rendering:
  "renderPath pattern params = (params', path') \<Longrightarrow>
     (\<forall>n\<in>set (bath_names pattern).
        map_of params' n = Some (JStr (js_toString (obj_get params n)))) \<and>
     (\<forall>n. n \<notin> set (bath_names pattern) \<longrightarrow> map_of params' n = map_of params n) \<and>
     path' = concat (map (fill params) (bath_segments pattern)) \<and>
     pattern = concat (map unparse (bath_segments pattern))"
  by (auto simp: renderPath_def Let_def coerce_map_of bath_path_coerced bath_segments_unparse
      bath_path_def [symmetric])

theorem C3_path_rendering_witness:
  "renderPath ''/pets/{id}/toys/{toy}'' [(''id'', JNum 42)] =
     ([(''id'', JStr ''42''), (''toy'', JStr ''undefined'')], ''/pets/42/toys/undefined'') \<and>
   bath_names ''/pets/{id}/toys/{toy}'' = [''id'', ''toy''] \<and>
   map_of [(''id'', JStr ''42''), (''toy'', JStr ''undefined'')] ''toy'' = Some (JStr ''undefined'')"
proof -
  have r: "renderPath ''/pets/{id}/toys/{toy}'' [(''id'', JNum 42)] =
     ([(''id'', JStr ''42''), (''toy'', JStr ''undefined'')], ''/pets/42/toys/undefined'')"
    by code_simp
  have n: "bath_names ''/pets/{id}/toys/{toy}'' = [''id'', ''toy'']"
    by code_simp
  have "map_of [(''id'', JStr ''42''), (''toy'', JStr ''undefined'')] ''toy''
          = Some (JStr (js_toString (obj_get [(''id'', JNum 42)] ''toy'')))"
    using C3_path_rendering [OF r] n by simp
  then show ?thesis using r n by (simp add: obj_get_def)
qed

text \<open>
  C4, evaluated. With a description that has no server list and the default selector 0,
  resolving the base URL of an operation gives the absent value and the request is built,
  but its URL starts with the text \<^verbatim>\<open>undefined\<close> instead of an empty origin: the template
  literal coerces the absent base URL. With a string selector and the same description,
  resolution throws a \<^verbatim>\<open>TypeError\<close> (the loop iterates over an absent server list), and so
  does request construction.
\<close>

theorem C4_unresolved_base_url:
  "getBaseURL bareClient (Some (OpObj listPets)) = Inr None \<and>
   getRequestConfigForOperation stringify bareClient (OpObj listPets) (JUndefined, JUndefined, None) =
     Inr \<lparr> pathParams = [], query = [], headers = [], cookies = [], method' = Get,
           url = ''undefined/pets'' @ (if stringify [] \<noteq> [] then ''?'' @ stringify [] else []),
           path = ''/pets'', queryString = stringify [], payload = JUndefined \<rparr> \<and>
   getBaseURL (bareClient\<lparr>defaultServer := ServerDescription ''staging''\<rparr>) (Some (OpObj listPets)) =
     Inl TypeError \<and>
   getRequestConfigForOperation stringify (bareClient\<lparr>defaultServer := ServerDescription ''staging''\<rparr>)
       (OpObj listPets) (JUndefined, JUndefined, None) = Inl TypeError"
  by (simp add: getRequestConfigForOperation_def requestConfig_def getBaseURL_def bareClient_def
      listPets_def operationBaseURL_def defaultBaseURL_def targetServer_def renderPath_def
      bath_names_def bath_path_def bath_segments_def flush_def noParams_def Let_def)

theorem C4_unresolved_base_url_witness:
  "getRequestConfigForOperation stringifyEmpty bareClient (OpObj listPets) (JUndefined, JUndefined, None) =
     Inr \<lparr> pathParams = [], query = [], headers = [], cookies = [], method' = Get,
           url = ''undefined/pets'', path = ''/pets'', queryString = [], payload = JUndefined \<rparr>"
  using C4_unresolved_base_url [of stringifyEmpty] by (simp add: stringifyEmpty_def)







text \<open>
  C7, as the code has it. With a description loaded and no operation-level servers in
  play: a string selector resolves to the URL of the first server of the top-level list
  whose description equals it, and to the absent value when no description matches
  (given that the description has a server list); a numeric selector resolves to the URL
  of the server at that index, and to the absent value when the index is outside the list
  or there is no list; a server object resolves to its URL when that is non-empty, and to
  the absent value when it is empty.
\<close>

theorem C7_default_server_selector:
  assumes "definition' this = Some d"
    and "operation = None \<or> (\<exists>op. operation = Some (OpObj op) \<and> orEmpty (servers op) = [])"
  shows "(defaultServer this = ServerDescription s \<and> doc_servers d = Some (pre @ server # post) \<and>
            server_description server = Some s \<and> (\<forall>q\<in>set pre. server_description q \<noteq> Some s) \<longrightarrow>
          getBaseURL this operation = Inr (Some (server_url server))) \<and>
         (defaultServer this = ServerDescription s \<and> doc_servers d = Some ss \<and>
            (\<forall>q\<in>set ss. server_description q \<noteq> Some s) \<longrightarrow>
          getBaseURL this operation = Inr None) \<and>
         (defaultServer this = ServerIndex i \<and> doc_servers d = Some ss \<and> 0 \<le> i \<and> nat i < length ss \<longrightarrow>
          getBaseURL this operation = Inr (Some (server_url (ss ! nat i)))) \<and>
         (defaultServer this = ServerIndex i \<and>
            (doc_servers d = None \<or> i < 0 \<or> length (orEmpty (doc_servers d)) \<le> nat i) \<longrightarrow>
          getBaseURL this operation = Inr None) \<and>
         (defaultServer this = ServerObject server' \<longrightarrow>
          getBaseURL this operation =
            Inr (if server_url server' = [] then None else Some (server_url server')))"
proof -
  have g: "getBaseURL this operation = defaultBaseURL this d"
    using assms by (auto simp: getBaseURL_def operationBaseURL_def orEmpty_def split: option.splits list.splits)
  have 1: "defaultBaseURL this d = Inr (Some (server_url server))"
    if "defaultServer this = ServerDescription s" "doc_servers d = Some (pre @ server # post)"
       "server_description server = Some s" "\<forall>q\<in>set pre. server_description q \<noteq> Some s"
    using that find_first [where P = "\<lambda>q. server_description q = Some s" and pre = pre and p = server and post = post]
    by (simp add: defaultBaseURL_def targetServer_def)
  have 2: "defaultBaseURL this d = Inr None"
    if "defaultServer this = ServerDescription s" "doc_servers d = Some ss"
       "\<forall>q\<in>set ss. server_description q \<noteq> Some s"
    using that find_none [where P = "\<lambda>q. server_description q = Some s" and ps = ss]
    by (simp add: defaultBaseURL_def targetServer_def)
  have 3: "defaultBaseURL this d = Inr (Some (server_url (ss ! nat i)))"
    if "defaultServer this = ServerIndex i" "doc_servers d = Some ss" "0 \<le> i" "nat i < length ss"
    using that by (simp add: defaultBaseURL_def targetServer_def)
  have 4: "defaultBaseURL this d = Inr None"
    if "defaultServer this = ServerIndex i"
       "doc_servers d = None \<or> i < 0 \<or> length (orEmpty (doc_servers d)) \<le> nat i"
    using that by (auto simp: defaultBaseURL_def targetServer_def orEmpty_def split: option.splits)
  have 5: "defaultBaseURL this d = Inr (if server_url server' = [] then None else Some (server_url server'))"
    if "defaultServer this = ServerObject server'"
    using that by (simp add: defaultBaseURL_def targetServer_def)
  show ?thesis unfolding g using 1 2 3 4 5 by blast
qed

text \<open>
  The claim as stated fails for a server object whose URL is the empty string: the
  selector counts only when its URL is truthy, so the result is absent, not the URL.
\<close>

theorem C7_default_server_selector_counterexample:
  "server_url emptyServer = [] \<and>
   getBaseURL (petClient\<lparr>defaultServer := ServerObject emptyServer\<rparr>) None = Inr None"
  by code_simp

theorem C7_default_server_selector_witness:
  "getBaseURL (petClient\<lparr>defaultServer := ServerDescription ''staging''\<rparr>) None =
     Inr (Some ''https://staging.example.com'') \<and>
   getBaseURL (petClient\<lparr>defaultServer := ServerDescription ''https://staging.example.com''\<rparr>) None =
     Inr None \<and>
   getBaseURL (petClient\<lparr>defaultServer := ServerIndex 1\<rparr>) (Some (OpObj getPet)) =
     Inr (Some ''https://staging.example.com'') \<and>
   getBaseURL (petClient\<lparr>defaultServer := ServerIndex 2\<rparr>) None = Inr None \<and>
   getBaseURL (petClient\<lparr>defaultServer := ServerObject overrideServer\<rparr>) None =
     Inr (Some ''https://op-override'')"
proof -
  let ?cl = "\<lambda>sel. petClient\<lparr>defaultServer := sel\<rparr>"
  have d: "definition' (?cl sel) = Some petDocument" for sel by (simp add: petClient_def)
  have o: "(None :: OperationArg option) = None \<or>
      (\<exists>op. (None :: OperationArg option) = Some (OpObj op) \<and> orEmpty (servers op) = [])"
    by simp
  have o': "Some (OpObj getPet) = None \<or>
      (\<exists>op. Some (OpObj getPet) = Some (OpObj op) \<and> orEmpty (servers op) = [])"
    by (simp add: getPet_eval orEmpty_def)
  have ss: "doc_servers petDocument = Some ([prodServer] @ stagingServer # [])"
    "doc_servers petDocument = Some [prodServer, stagingServer]"
    by (simp_all add: petDocument_def)
  have f: "server_description stagingServer = Some ''staging''"
    "server_description prodServer = Some ''prod''"
    "server_url stagingServer = ''https://staging.example.com''"
    "server_url overrideServer = ''https://op-override''"
    by (simp_all add: stagingServer_def prodServer_def overrideServer_def)
  have 1: "getBaseURL (?cl (ServerDescription ''staging'')) None = Inr (Some ''https://staging.example.com'')"
    using C7_default_server_selector [OF d o, of "ServerDescription ''staging''" "''staging''"
        "[prodServer]" stagingServer "[]"] ss f
    by simp
  have 2: "getBaseURL (?cl (ServerDescription ''https://staging.example.com'')) None = Inr None"
    using C7_default_server_selector [OF d o, of "ServerDescription ''https://staging.example.com''"
        "''https://staging.example.com''" _ _ _ "[prodServer, stagingServer]"] ss f
    by simp
  have 3: "getBaseURL (?cl (ServerIndex 1)) (Some (OpObj getPet)) = Inr (Some ''https://staging.example.com'')"
    using C7_default_server_selector [OF d o', of "ServerIndex 1" _ _ _ _ "[prodServer, stagingServer]" 1] ss f
    by simp
  have 4: "getBaseURL (?cl (ServerIndex 2)) None = Inr None"
    using C7_default_server_selector [OF d o, of "ServerIndex 2" _ _ _ _ _ 2] ss
    by (simp add: orEmpty_def)
  have 5: "getBaseURL (?cl (ServerObject overrideServer)) None = Inr (Some ''https://op-override'')"
    using C7_default_server_selector [OF d o, of "ServerObject overrideServer" _ _ _ _ _ _ overrideServer] f
    by simp
  show ?thesis using 1 2 3 4 5 by simp
qed

text \<open>
  C8. With a description loaded, the catalog consists exactly of the flattened
  operations of the description's paths and methods. For a path and a method under it,
  the flattened operation is in the catalog, its parameter list is the operation's own
  parameters followed by the path-level ones, so every path-level parameter is in it, and
  looking up a name the operation declares itself finds the operation's first declaration
  of it, not a path-level one.
\<close>

theorem C8_path_level_parameters:
  assumes "definition' this = Some d"
  shows "(\<forall>op\<in>set (getOperations this).
            \<exists>p pathObject m operation.
              (p, pathObject) \<in> set (doc_paths d) \<and> item_methods pathObject m = Some operation \<and>
              op = flattenOperation p pathObject m operation) \<and>
         ((p, pathObject) \<in> set (doc_paths d) \<and> item_methods pathObject m = Some operation \<longrightarrow>
            flattenOperation p pathObject m operation \<in> set (getOperations this) \<and>
            op_path (flattenOperation p pathObject m operation) = p \<and>
            op_method (flattenOperation p pathObject m operation) = m \<and>
            orEmpty (parameters (flattenOperation p pathObject m operation)) =
              orEmpty (parameters operation) @ orEmpty (item_parameters pathObject) \<and>
            (\<forall>q\<in>set (orEmpty (item_parameters pathObject)).
               q \<in> set (orEmpty (parameters (flattenOperation p pathObject m operation)))) \<and>
            (\<forall>n q. find (\<lambda>q. param_name q = n) (orEmpty (parameters operation)) = Some q \<longrightarrow>
               getParamType (flattenOperation p pathObject m operation) (JStr n) = param_in q))"
proof -
  have "getParamType (flattenOperation p pathObject m operation) (JStr n) = param_in q"
    if "find (\<lambda>q. param_name q = n) (orEmpty (parameters operation)) = Some q" for n q
    using find_append_first [OF that, of "orEmpty (item_parameters pathObject)"]
    by (simp add: getParamType_def flatten_parameters)
  then show ?thesis
    using assms by (auto simp: set_getOperations flatten_parameters) (simp_all add: flattenOperation_def)
qed

theorem C8_path_level_parameters_witness:
  "definition' petClient = Some petDocument \<and>
   (''/pets/{id}'', petItem) \<in> set (doc_paths petDocument) \<and>
   item_methods petItem Get = Some getPetObject \<and>
   getOperations petClient = [getPet] \<and>
   orEmpty (parameters getPet) = [verboseParam, idParam, traceParam, pathVerboseParam] \<and>
   find (\<lambda>q. param_name q = ''verbose'') (orEmpty (parameters getPetObject)) = Some verboseParam \<and>
   getParamType getPet (JStr ''verbose'') = Query \<and>
   getParamType getPet (JStr ''X-Trace'') = Header"
proof -
  have d: "definition' petClient = Some petDocument" by (simp add: petClient_def)
  have i: "(''/pets/{id}'', petItem) \<in> set (doc_paths petDocument)" by (simp add: petDocument_def)
  have m: "item_methods petItem Get = Some getPetObject" by (simp add: petItem_def)
  have g: "getOperations petClient = [getPet]"
    by (simp add: getOperations_def d petDocument_def pathOperations_def pickMethods_def
        HttpMethod_values_def petItem_def getPet_def)
  have f: "find (\<lambda>q. param_name q = ''verbose'') (orEmpty (parameters getPetObject)) = Some verboseParam"
    by (simp add: getPetObject_def orEmpty_def verboseParam_def)
  have x: "getParamType getPet (JStr ''X-Trace'') = Header" by code_simp
  have p: "orEmpty (parameters getPetObject) = [verboseParam, idParam]"
    "orEmpty (item_parameters petItem) = [traceParam, pathVerboseParam]"
    "param_in verboseParam = Query"
    by (simp_all add: getPetObject_def petItem_def orEmpty_def verboseParam_def)
  from C8_path_level_parameters [OF d, of "''/pets/{id}''" petItem Get getPetObject] i m f
  have "orEmpty (parameters (flattenOperation ''/pets/{id}'' petItem Get getPetObject)) =
          orEmpty (parameters getPetObject) @ orEmpty (item_parameters petItem)"
    and "getParamType (flattenOperation ''/pets/{id}'' petItem Get getPetObject) (JStr ''verbose'') =
          param_in verboseParam"
    by blast+
  then show ?thesis using d i m g f x p by (simp add: getPet_def)
qed

text \<open>
  C9, as the code has it. In a request descriptor that is built, a name is bound in the
  map of a location exactly when binding the first argument placed it under that
  location, or the location is the path and the name is a placeholder of the operation's
  path. Hence a name is bound in two of the four maps in exactly two cases: binding placed
  it under two locations, or it is a placeholder of the path and binding placed it under
  a location other than the path. An element of a parameter array places its name under
  the location its type spells, so two elements with one name and two locations are the
  first case. A mapping and a scalar place a name under one location only: a key of a
  mapping is bound twice exactly when it names a placeholder, its value is truthy and its
  classified location is not the path; a scalar's parameter exactly when it names a
  placeholder and is not declared in the path; and for \<^verbatim>\<open>null\<close> and \<^verbatim>\<open>undefined\<close> no name
  is bound twice.
\<close>

theorem C9_one_location_per_name:
  assumes "getRequestConfigForOperation stringify this (OpObj operation)
             (paramsArg, body, config) = Inr request"
  shows "(\<forall>t n. map_of (locationMap t request) n \<noteq> None \<longleftrightarrow>
            (n, t) \<in> set (placements operation paramsArg) \<or>
            (t = Path \<and> n \<in> set (bath_names (op_path operation)))) \<and>
         (\<forall>n. (\<exists>t t'. t \<noteq> t' \<and> map_of (locationMap t request) n \<noteq> None \<and>
                       map_of (locationMap t' request) n \<noteq> None) \<longleftrightarrow>
              (\<exists>t t'. t \<noteq> t' \<and> (n, t) \<in> set (placements operation paramsArg) \<and>
                       (n, t') \<in> set (placements operation paramsArg)) \<or>
              (n \<in> set (bath_names (op_path operation)) \<and>
               (\<exists>t. t \<noteq> Path \<and> (n, t) \<in> set (placements operation paramsArg)))) \<and>
         (\<forall>params ps n t. paramsArg = JArr params ps \<longrightarrow>
            ((n, t) \<in> set (placements operation paramsArg) \<longleftrightarrow>
               (\<exists>param\<in>set params. explicitName param = n \<and>
                  explicitType operation param = JStr (ParamType_str t)))) \<and>
         (\<forall>kvs n. paramsArg = JObj kvs \<longrightarrow>
            ((\<exists>t t'. t \<noteq> t' \<and> map_of (locationMap t request) n \<noteq> None \<and>
                       map_of (locationMap t' request) n \<noteq> None) \<longleftrightarrow>
               n \<in> set (bath_names (op_path operation)) \<and> truthy (obj_get kvs n) \<and>
               getParamType operation (JStr n) \<noteq> Path)) \<and>
         (\<forall>n. isScalar paramsArg \<longrightarrow>
            ((\<exists>t t'. t \<noteq> t' \<and> map_of (locationMap t request) n \<noteq> None \<and>
                       map_of (locationMap t' request) n \<noteq> None) \<longleftrightarrow>
               n \<in> set (bath_names (op_path operation)) \<and>
               (\<exists>p. getFirstOperationParam operation = Some p \<and> param_name p = n \<and>
                    param_in p \<noteq> Path))) \<and>
         (\<forall>n. paramsArg = JNull \<or> paramsArg = JUndefined \<longrightarrow>
            \<not> (\<exists>t t'. t \<noteq> t' \<and> map_of (locationMap t request) n \<noteq> None \<and>
                       map_of (locationMap t' request) n \<noteq> None))"
proof -
  let ?P = "\<lambda>n t. (n, t) \<in> set (placements operation paramsArg)"
  let ?N = "\<lambda>n. n \<in> set (bath_names (op_path operation))"
  let ?B = "\<lambda>n t. map_of (locationMap t request) n \<noteq> None"
  have a: "?B n t \<longleftrightarrow> ?P n t \<or> (t = Path \<and> ?N n)" for t n
    by (rule descriptor_bound [OF assms])
  have b: "(\<exists>t t'. t \<noteq> t' \<and> ?B n t \<and> ?B n t') \<longleftrightarrow>
      (\<exists>t t'. t \<noteq> t' \<and> ?P n t \<and> ?P n t') \<or> (?N n \<and> (\<exists>t. t \<noteq> Path \<and> ?P n t))"
    for n
    by (rule two_locations [of "?B n" "?P n" "?N n", OF a])
  have c: "(\<exists>t t'. t \<noteq> t' \<and> ?B n t \<and> ?B n t') \<longleftrightarrow> ?N n \<and> (\<exists>t. t \<noteq> Path \<and> ?P n t)"
    if "\<not> isArray paramsArg" for n
    by (rule two_locations_one [of "?B n" "?P n" "?N n", OF a placements_one [OF that]])
  have e1: "?P n t \<longleftrightarrow>
      (\<exists>param\<in>set params. explicitName param = n \<and>
          explicitType operation param = JStr (ParamType_str t))"
    if "paramsArg = JArr params ps" for params ps n t
    unfolding that by (rule placements_array)
  have m: "(\<exists>t t'. t \<noteq> t' \<and> ?B n t \<and> ?B n t') \<longleftrightarrow>
      ?N n \<and> truthy (obj_get kvs n) \<and> getParamType operation (JStr n) \<noteq> Path"
    if "paramsArg = JObj kvs" for kvs n
  proof -
    have "\<not> isArray paramsArg" by (simp add: that)
    note c [OF this, of n]
    also have "(\<exists>t. t \<noteq> Path \<and> ?P n t) \<longleftrightarrow>
        truthy (obj_get kvs n) \<and> getParamType operation (JStr n) \<noteq> Path"
      unfolding that placements_mapping by blast
    finally show ?thesis .
  qed
  have s: "(\<exists>t t'. t \<noteq> t' \<and> ?B n t \<and> ?B n t') \<longleftrightarrow> ?N n \<and>
      (\<exists>p. getFirstOperationParam operation = Some p \<and> param_name p = n \<and> param_in p \<noteq> Path)"
    if "isScalar paramsArg" for n
  proof -
    from that have "\<not> isArray paramsArg" by (cases paramsArg) simp_all
    note c [OF this, of n]
    also have "(\<exists>t. t \<noteq> Path \<and> ?P n t) \<longleftrightarrow>
        (\<exists>p. getFirstOperationParam operation = Some p \<and> param_name p = n \<and> param_in p \<noteq> Path)"
      unfolding placements_scalar [OF that] by blast
    finally show ?thesis .
  qed
  have z: "\<not> (\<exists>t t'. t \<noteq> t' \<and> ?B n t \<and> ?B n t')"
    if "paramsArg = JNull \<or> paramsArg = JUndefined" for n
  proof -
    from that have "\<not> isArray paramsArg" by auto
    from c [OF this, of n] placements_nil [OF that, of operation] show ?thesis by simp
  qed
  have A: "\<forall>t n. ?B n t \<longleftrightarrow> ?P n t \<or> (t = Path \<and> ?N n)" using a by blast
  have B: "\<forall>n. (\<exists>t t'. t \<noteq> t' \<and> ?B n t \<and> ?B n t') \<longleftrightarrow>
      (\<exists>t t'. t \<noteq> t' \<and> ?P n t \<and> ?P n t') \<or> (?N n \<and> (\<exists>t. t \<noteq> Path \<and> ?P n t))"
    using b by blast
  have E: "\<forall>params ps n t. paramsArg = JArr params ps \<longrightarrow>
            (?P n t \<longleftrightarrow>
               (\<exists>param\<in>set params. explicitName param = n \<and>
                  explicitType operation param = JStr (ParamType_str t)))"
    using e1 by blast
  have M: "\<forall>kvs n. paramsArg = JObj kvs \<longrightarrow>
            ((\<exists>t t'. t \<noteq> t' \<and> ?B n t \<and> ?B n t') \<longleftrightarrow>
               ?N n \<and> truthy (obj_get kvs n) \<and> getParamType operation (JStr n) \<noteq> Path)"
    using m by blast
  have S: "\<forall>n. isScalar paramsArg \<longrightarrow>
            ((\<exists>t t'. t \<noteq> t' \<and> ?B n t \<and> ?B n t') \<longleftrightarrow>
               ?N n \<and>
               (\<exists>p. getFirstOperationParam operation = Some p \<and> param_name p = n \<and>
                    param_in p \<noteq> Path))"
    using s by blast
  have Z: "\<forall>n. paramsArg = JNull \<or> paramsArg = JUndefined \<longrightarrow>
            \<not> (\<exists>t t'. t \<noteq> t' \<and> ?B n t \<and> ?B n t')"
    using z by blast
  show ?thesis by (rule conjI [OF A conjI [OF B conjI [OF E conjI [OF M conjI [OF S Z]]]]])
qed

text \<open>
  The claim as stated fails for explicit parameters: two entries that give the same name
  with different locations are both placed, here \<^verbatim>\<open>id\<close> in the headers and in the cookies.
  It also fails when a placeholder of the path is declared with another location, as
  \<open>placeholder_bound_elsewhere\<close> shows: the name is bound there and in the path map.
\<close>

theorem C9_one_location_per_name_counterexample:
  "getRequestConfigForOperation stringifyEmpty petClient (OpObj listPets)
       (JArr [JObj [(''name'', JStr ''id''), (''value'', JNum 1), (''in'', JStr ''header'')],
              JObj [(''name'', JStr ''id''), (''value'', JNum 2), (''in'', JStr ''cookie'')]] [],
        JUndefined, None) =
     Inr \<lparr> pathParams = [], query = [], headers = [(''id'', JNum 1)], cookies = [(''id'', JNum 2)],
           method' = Get, url = ''https://api.example.com/pets'', path = ''/pets'',
           queryString = [], payload = JUndefined \<rparr>"
  by code_simp

theorem C9_one_location_per_name_witness:
  "getRequestConfigForOperation stringifyEmpty petClient
       (OpObj (getPet\<lparr>parameters := Some [idParam, idParam\<lparr>param_in := Query\<rparr>]\<rparr>))
       (JObj [(''id'', JNum 5)], JUndefined, None) =
     Inr \<lparr> pathParams = [(''id'', JStr ''5'')], query = [], headers = [], cookies = [],
           method' = Get, url = ''https://api.example.com/pets/5'', path = ''/pets/5'',
           queryString = [], payload = JUndefined \<rparr> \<and>
   \<not> (\<exists>t t'. t \<noteq> t' \<and>
        map_of (locationMap t \<lparr> pathParams = [(''id'', JStr ''5'')], query = [], headers = [],
           cookies = [], method' = Get, url = ''https://api.example.com/pets/5'',
           path = ''/pets/5'', queryString = [], payload = JUndefined \<rparr>) ''id'' \<noteq> None \<and>
        map_of (locationMap t' \<lparr> pathParams = [(''id'', JStr ''5'')], query = [], headers = [],
           cookies = [], method' = Get, url = ''https://api.example.com/pets/5'',
           path = ''/pets/5'', queryString = [], payload = JUndefined \<rparr>) ''id'' \<noteq> None) \<and>
   getRequestConfigForOperation stringifyEmpty petClient
       (OpObj (getPet\<lparr>parameters := None\<rparr>)) (JUndefined, JUndefined, None) =
     Inr \<lparr> pathParams = [(''id'', JStr ''undefined'')], query = [], headers = [], cookies = [],
           method' = Get, url = ''https://api.example.com/pets/undefined'',
           path = ''/pets/undefined'', queryString = [], payload = JUndefined \<rparr> \<and>
   \<not> (\<exists>t t'. t \<noteq> t' \<and>
        map_of (locationMap t \<lparr> pathParams = [(''id'', JStr ''undefined'')], query = [],
           headers = [], cookies = [], method' = Get,
           url = ''https://api.example.com/pets/undefined'',
           path = ''/pets/undefined'', queryString = [], payload = JUndefined \<rparr>) ''id'' \<noteq> None \<and>
        map_of (locationMap t' \<lparr> pathParams = [(''id'', JStr ''undefined'')], query = [],
           headers = [], cookies = [], method' = Get,
           url = ''https://api.example.com/pets/undefined'',
           path = ''/pets/undefined'', queryString = [], payload = JUndefined \<rparr>) ''id'' \<noteq> None) \<and>
   getRequestConfigForOperation stringifyEmpty petClient (OpObj listPets)
       (JArr [JObj [(''name'', JStr ''id''), (''value'', JNum 1), (''in'', JStr ''body'')],
              JObj [(''name'', JStr ''id''), (''value'', JNum 2), (''in'', JStr ''query'')]] [],
        JUndefined, None) =
     Inr \<lparr> pathParams = [], query = [(''id'', JNum 2)], headers = [], cookies = [],
           method' = Get, url = ''https://api.example.com/pets'', path = ''/pets'',
           queryString = [], payload = JUndefined \<rparr> \<and>
   \<not> (\<exists>t t'. t \<noteq> t' \<and>
        map_of (locationMap t \<lparr> pathParams = [], query = [(''id'', JNum 2)], headers = [],
           cookies = [], method' = Get, url = ''https://api.example.com/pets'', path = ''/pets'',
           queryString = [], payload = JUndefined \<rparr>) ''id'' \<noteq> None \<and>
        map_of (locationMap t' \<lparr> pathParams = [], query = [(''id'', JNum 2)], headers = [],
           cookies = [], method' = Get, url = ''https://api.example.com/pets'', path = ''/pets'',
           queryString = [], payload = JUndefined \<rparr>) ''id'' \<noteq> None) \<and>
   getRequestConfigForOperation stringifyEmpty petClient
       (OpObj (getPet\<lparr>parameters := Some [idParam\<lparr>param_in := Header\<rparr>]\<rparr>))
       (JNum 5, JUndefined, None) =
     Inr \<lparr> pathParams = [(''id'', JStr ''undefined'')], query = [], headers = [(''id'', JNum 5)],
           cookies = [], method' = Get, url = ''https://api.example.com/pets/undefined'',
           path = ''/pets/undefined'', queryString = [], payload = JUndefined \<rparr> \<and>
   (\<exists>t t'. t \<noteq> t' \<and>
        map_of (locationMap t \<lparr> pathParams = [(''id'', JStr ''undefined'')], query = [],
           headers = [(''id'', JNum 5)], cookies = [], method' = Get,
           url = ''https://api.example.com/pets/undefined'',
           path = ''/pets/undefined'', queryString = [], payload = JUndefined \<rparr>) ''id'' \<noteq> None \<and>
        map_of (locationMap t' \<lparr> pathParams = [(''id'', JStr ''undefined'')], query = [],
           headers = [(''id'', JNum 5)], cookies = [], method' = Get,
           url = ''https://api.example.com/pets/undefined'',
           path = ''/pets/undefined'', queryString = [], payload = JUndefined \<rparr>) ''id'' \<noteq> None)"
proof -
  define op1 where "op1 = getPet\<lparr>parameters := Some [idParam, idParam\<lparr>param_in := Query\<rparr>]\<rparr>"
  define op2 where "op2 = getPet\<lparr>parameters := None\<rparr>"
  define op4 where "op4 = getPet\<lparr>parameters := Some [idParam\<lparr>param_in := Header\<rparr>]\<rparr>"
  define p3 where
    "p3 = JArr [JObj [(''name'', JStr ''id''), (''value'', JNum 1), (''in'', JStr ''body'')],
                JObj [(''name'', JStr ''id''), (''value'', JNum 2), (''in'', JStr ''query'')]] []"
  define c1 :: RequestConfig where
    "c1 = \<lparr> pathParams = [(''id'', JStr ''5'')], query = [], headers = [], cookies = [],
           method' = Get, url = ''https://api.example.com/pets/5'', path = ''/pets/5'',
           queryString = [], payload = JUndefined \<rparr>"
  define c2 :: RequestConfig where
    "c2 = \<lparr> pathParams = [(''id'', JStr ''undefined'')], query = [], headers = [], cookies = [],
           method' = Get, url = ''https://api.example.com/pets/undefined'',
           path = ''/pets/undefined'', queryString = [], payload = JUndefined \<rparr>"
  define c3 :: RequestConfig where
    "c3 = \<lparr> pathParams = [], query = [(''id'', JNum 2)], headers = [], cookies = [],
           method' = Get, url = ''https://api.example.com/pets'', path = ''/pets'',
           queryString = [], payload = JUndefined \<rparr>"
  define c4 :: RequestConfig where
    "c4 = \<lparr> pathParams = [(''id'', JStr ''undefined'')], query = [], headers = [(''id'', JNum 5)],
           cookies = [], method' = Get, url = ''https://api.example.com/pets/undefined'',
           path = ''/pets/undefined'', queryString = [], payload = JUndefined \<rparr>"
  let ?two = "\<lambda>c. \<exists>t t'. t \<noteq> t' \<and> map_of (locationMap t c) ''id'' \<noteq> None \<and>
                 map_of (locationMap t' c) ''id'' \<noteq> None"
  have e1: "getRequestConfigForOperation stringifyEmpty petClient (OpObj op1)
              (JObj [(''id'', JNum 5)], JUndefined, None) = Inr c1"
    unfolding op1_def c1_def by code_simp
  have e2: "getRequestConfigForOperation stringifyEmpty petClient (OpObj op2)
              (JUndefined, JUndefined, None) = Inr c2"
    unfolding op2_def c2_def by code_simp
  have e3: "getRequestConfigForOperation stringifyEmpty petClient (OpObj listPets)
              (p3, JUndefined, None) = Inr c3"
    unfolding p3_def c3_def by code_simp
  have e4: "getRequestConfigForOperation stringifyEmpty petClient (OpObj op4)
              (JNum 5, JUndefined, None) = Inr c4"
    unfolding op4_def c4_def by code_simp
  have g1: "getParamType op1 (JStr ''id'') = Path" unfolding op1_def by code_simp
  have n3: "bath_names (op_path listPets) = []" by code_simp
  have n4: "''id'' \<in> set (bath_names (op_path op4))" unfolding op4_def by code_simp
  have f4: "getFirstOperationParam op4 = Some (idParam\<lparr>param_in := Header\<rparr>)"
    unfolding op4_def by code_simp
  have pl3: "placements listPets p3 = [(''id'', Query)]" unfolding p3_def by code_simp
  note mapping = C9_one_location_per_name [OF e1, THEN conjunct2, THEN conjunct2, THEN conjunct2,
      THEN conjunct1, rule_format, of "[(''id'', JNum 5)]" "''id''"]
  have 1: "\<not> ?two c1" using mapping g1 by simp
  note absent = C9_one_location_per_name [OF e2, THEN conjunct2, THEN conjunct2, THEN conjunct2,
      THEN conjunct2, THEN conjunct2, rule_format, of "''id''"]
  have 2: "\<not> ?two c2" by (rule absent) simp
  note array = C9_one_location_per_name [OF e3, THEN conjunct2, THEN conjunct1, rule_format,
      of "''id''"]
  have 3: "\<not> ?two c3" unfolding array pl3 n3 by simp
  note scalar = C9_one_location_per_name [OF e4, THEN conjunct2, THEN conjunct2, THEN conjunct2,
      THEN conjunct2, THEN conjunct1, rule_format, of "''id''"]
  have 4: "?two c4" using scalar n4 f4 by (simp add: idParam_def)
  from e1 1 e2 2 e3 3 e4 4 show ?thesis
    unfolding op1_def op2_def op4_def p3_def c1_def c2_def c3_def c4_def by simp
qed

text \<open>
  C10. In a request descriptor that is built, the query, header and cookie maps are the
  maps binding produced and the payload is the caller's second argument; the path map
  differs from the bound one only at the placeholders of the path, which hold the string
  form of what was bound; and every value binding placed is a value the caller supplied
  in the first argument.
\<close>

theorem C10_only_path_placeholders_coerced:
  assumes "getRequestConfigForOperation stringify this (OpObj operation) (paramsArg, body, config) = Inr c"
  shows "\<exists>r. bindParams operation paramsArg = Inr r \<and>
           query c = query r \<and> headers c = headers r \<and> cookies c = cookies r \<and>
           payload c = body \<and>
           (\<forall>n. n \<notin> set (bath_names (op_path operation)) \<longrightarrow>
                map_of (pathParams c) n = map_of (pathParams r) n) \<and>
           (\<forall>n\<in>set (bath_names (op_path operation)).
                map_of (pathParams c) n = Some (JStr (js_toString (obj_get (pathParams r) n)))) \<and>
           (\<forall>t n v. map_of (locationMap t r) n = Some v \<longrightarrow> v \<in> set (suppliedValues paramsArg))"
proof -
  from assms have "requestConfig stringify this operation (paramsArg, body, config) = Inr c"
    by (simp add: getRequestConfig_OpObj)
  from requestConfig_Inr [OF this] obtain r where r: "bindParams operation paramsArg = Inr r"
    and m: "pathParams c = coercePathParams (bath_names (op_path operation)) (pathParams r)"
      "query c = query r" "headers c = headers r" "cookies c = cookies r" "payload c = body"
    by blast
  show ?thesis
    using r m bindParams_value [OF r] by (auto simp: coerce_map_of)
qed

theorem C10_only_path_placeholders_coerced_witness:
  "getRequestConfigForOperation stringifyEmpty petClient (OpObj getPet)
       (JObj [(''id'', JNum 42), (''X-Trace'', JArr [JNum 1, JBool True] [])], JObj [(''name'', JNum 7)], None) =
     Inr \<lparr> pathParams = [(''id'', JStr ''42'')], query = [],
           headers = [(''X-Trace'', JArr [JNum 1, JBool True] [])],
           cookies = [], method' = Get, url = ''https://api.example.com/pets/42'',
           path = ''/pets/42'', queryString = [], payload = JObj [(''name'', JNum 7)] \<rparr> \<and>
   bindParams getPet (JObj [(''id'', JNum 42), (''X-Trace'', JArr [JNum 1, JBool True] [])]) =
     Inr \<lparr> pathParams = [(''id'', JNum 42)], query = [],
           headers = [(''X-Trace'', JArr [JNum 1, JBool True] [])], cookies = [] \<rparr> \<and>
   JArr [JNum 1, JBool True] [] \<in>
     set (suppliedValues (JObj [(''id'', JNum 42), (''X-Trace'', JArr [JNum 1, JBool True] [])]))"
proof -
  let ?p = "JObj [(''id'', JNum 42), (''X-Trace'', JArr [JNum 1, JBool True] [])]"
  let ?c = "\<lparr> pathParams = [(''id'', JStr ''42'')], query = [],
           headers = [(''X-Trace'', JArr [JNum 1, JBool True] [])],
           cookies = [], method' = Get, url = ''https://api.example.com/pets/42'',
           path = ''/pets/42'', queryString = [], payload = JObj [(''name'', JNum 7)] \<rparr>"
  let ?r = "\<lparr> pathParams = [(''id'', JNum 42)], query = [],
           headers = [(''X-Trace'', JArr [JNum 1, JBool True] [])], cookies = [] \<rparr>"
  have e: "getRequestConfigForOperation stringifyEmpty petClient (OpObj getPet)
       (?p, JObj [(''name'', JNum 7)], None) = Inr ?c"
    by code_simp
  have b: "bindParams getPet ?p = Inr ?r" by code_simp
  from C10_only_path_placeholders_coerced [OF e] b
  have "\<forall>t n v. map_of (locationMap t ?r) n = Some v \<longrightarrow> v \<in> set (suppliedValues ?p)"
    by auto
  then have "map_of (locationMap Header ?r) ''X-Trace'' = Some (JArr [JNum 1, JBool True] []) \<longrightarrow>
      JArr [JNum 1, JBool True] [] \<in> set (suppliedValues ?p)"
    by blast
  then have "JArr [JNum 1, JBool True] [] \<in> set (suppliedValues ?p)"
    by (simp add: locationMap_def)
  then show ?thesis using e b by simp
qed

end
